theory Spec2Isabelle
  imports Complex_Main
begin

section \<open>Data model of \<^verbatim>\<open>strategy_engine.py\<close>\<close>

text \<open>
  The engine works on three process-wide values loaded from pickles
  (\<^verbatim>\<open>deg_models\<close>, \<^verbatim>\<open>pit_time\<close>, \<^verbatim>\<open>track_laps_dict\<close>). They are parameters of the
  model; \<^verbatim>\<open>deg_models\<close> is a nested dictionary that \<^verbatim>\<open>simulate_strategy\<close> can write
  to, so it is threaded through as state and returned.

  Python dictionaries keep insertion order and are iterated by the fallback code, so
  they are association lists here (looked up with \<open>map_of\<close>, keys distinct in a
  well-formed dictionary). Python floats are read as real numbers: rounding is not
  modelled, so nothing here speaks about doubles that the code computes along different
  orders of addition. Python integers are \<open>int\<close>. Exceptions are values of type \<open>error\<close>.
  A weather dictionary always carries the keys \<^verbatim>\<open>track_temp\<close> and \<^verbatim>\<open>rain_prob\<close>
  (every producer in the repository builds both), so it is a record; a degradation entry
  always carries \<^verbatim>\<open>base\<close> and \<^verbatim>\<open>slope\<close>.
\<close>

datatype error = KeyError | ValueError | ZeroDivisionError

record entry =
  base :: real
  slope :: real

type_synonym comp_dict = "(string \<times> entry) list"
type_synonym track_dict = "(string \<times> comp_dict) list"
type_synonym deg_table = "(string \<times> track_dict) list"

record weather =
  track_temp :: real
  rain_prob :: real

type_synonym strategy = "(string \<times> int) list"

record analytics =
  stint_times :: "real list"
  deg_penalties :: "real list"
  avg_lap_times :: "real list"
  cum_times :: "real list"
  total_time :: real

text \<open>The local variables of the stint loop of \<^verbatim>\<open>simulate_strategy\<close> (lines 103-107).\<close>

record loop_state =
  l_total_time :: real
  l_stint_times :: "real list"
  l_deg_penalties :: "real list"
  l_avg_lap_times :: "real list"
  l_cum_times :: "real list"
  l_current_cum :: real
  l_prev_comp :: "string option"
  l_current_lap :: int

section \<open>Constants written by \<^verbatim>\<open>data_prep.py\<close>\<close>

text \<open>\<^verbatim>\<open>TRACK_LAPS\<close> (lines 17-23) and \<^verbatim>\<open>pit_time_avg\<close> (line 56) are what
  \<^verbatim>\<open>prepare_data\<close> dumps into \<^verbatim>\<open>track_laps.pkl\<close> and \<^verbatim>\<open>pit_time.pkl\<close>.\<close>

definition TRACK_LAPS :: "(string \<times> int) list" where
  "TRACK_LAPS =
    [(''Bahrain'', 57), (''Saudi Arabia'', 50), (''Australia'', 58), (''Japan'', 53),
     (''China'', 56), (''Miami'', 57), (''Imola'', 63), (''Monaco'', 78), (''Canada'', 70),
     (''Spain'', 66), (''Austria'', 71), (''Silverstone'', 52), (''Hungary'', 70),
     (''Belgium'', 44), (''Netherlands'', 72), (''Monza'', 53), (''Azerbaijan'', 51),
     (''Singapore'', 62), (''USA'', 56), (''Mexico'', 71), (''Brazil'', 71),
     (''Las Vegas'', 50), (''Qatar'', 57), (''Abu Dhabi'', 58)]"

definition pit_time_avg :: real where
  "pit_time_avg = 22"

section \<open>Dictionary helpers\<close>

text \<open>\<^verbatim>\<open>d[k] = v\<close>: overwrite in place when the key exists, append otherwise.\<close>

fun dict_set :: "(string \<times> 'v) list \<Rightarrow> string \<Rightarrow> 'v \<Rightarrow> (string \<times> 'v) list" where
  "dict_set [] k v = [(k, v)]"
| "dict_set ((k', v') # kvs) k v =
     (if k' = k then (k, v) # kvs else (k', v') # dict_set kvs k v)"

text \<open>\<^verbatim>\<open>np.mean\<close> of a list; the source only calls it on non-empty lists.\<close>

definition mean :: "real list \<Rightarrow> real" where
  "mean xs = sum_list xs / real (length xs)"

section \<open>Fallback averaging (lines 74-101)\<close>

definition dry_compounds :: "string list" where
  "dry_compounds = [''SOFT'', ''MEDIUM'', ''HARD'']"

text \<open>The values appended to \<^verbatim>\<open>all_bases[comp]\<close> / \<^verbatim>\<open>all_slopes[comp]\<close> while the
  compound dictionaries \<open>ds\<close> are visited in order.\<close>

definition collect :: "comp_dict list \<Rightarrow> string \<Rightarrow> entry list" where
  "collect ds compound =
     concat (map (\<lambda>d. case map_of d compound of Some e \<Rightarrow> [e] | None \<Rightarrow> []) ds)"

text \<open>The dictionary comprehension of lines 84-85 and 100-101: one averaged entry per
  dry compound that has at least one source value.\<close>

definition average_entries :: "comp_dict list \<Rightarrow> comp_dict" where
  "average_entries ds =
     concat (map (\<lambda>compound. let es = collect ds compound in
                    if es = [] then []
                    else [(compound, \<lparr>base = mean (map base es), slope = mean (map slope es)\<rparr>)])
                 dry_compounds)"

text \<open>Lines 74-101. The result is the table after the call and \<^verbatim>\<open>track_data\<close>.
  When the track is stored, \<^verbatim>\<open>track_data\<close> is the very dictionary held by
  \<^verbatim>\<open>deg_models[track]\<close>, so the assignment \<^verbatim>\<open>track_data[team] = ...\<close> of line 100
  writes into the table; when the track is missing, \<^verbatim>\<open>track_data\<close> is a fresh
  dictionary.\<close>

definition resolve_track_data ::
    "deg_table \<Rightarrow> string \<Rightarrow> string \<Rightarrow> deg_table \<times> track_dict" where
  "resolve_track_data deg_models track team =
     (case map_of deg_models track of
        None \<Rightarrow>
          let fallback = average_entries (concat (map (map snd \<circ> snd) deg_models));
              track_data = [(''Other'', fallback)]
          in if map_of track_data team = None
             then (deg_models, dict_set track_data team (average_entries (map snd track_data)))
             else (deg_models, track_data)
      | Some track_data \<Rightarrow>
          if map_of track_data team = None
          then let track_data' = dict_set track_data team (average_entries (map snd track_data))
               in (dict_set deg_models track track_data', track_data')
          else (deg_models, track_data))"

section \<open>The stint loop (lines 103-142)\<close>

text \<open>Lines 110-119: the wet substitution and the resolution of \<open>(base, slope)\<close> from
  \<^verbatim>\<open>track_data[team]\<close>.\<close>

definition effective_comp :: "bool \<Rightarrow> string \<Rightarrow> string" where
  "effective_comp is_wet compound =
     (if is_wet \<and> compound \<noteq> ''INTERMEDIATE'' then ''INTERMEDIATE'' else compound)"

definition resolve_entry :: "comp_dict \<Rightarrow> string \<Rightarrow> error + (real \<times> real)" where
  "resolve_entry team_data compound =
     (if compound = ''INTERMEDIATE'' then
        (case map_of team_data ''HARD'' of
           Some e \<Rightarrow> Inr (base e + 3.0, slope e * 1.5)
         | None \<Rightarrow> Inr (95.0, 0.03))
      else
        (case map_of team_data compound of
           None \<Rightarrow> Inl KeyError
         | Some e \<Rightarrow> Inr (base e, slope e)))"

text \<open>Line 122; \<^verbatim>\<open>range(stint_laps)\<close> is empty for a count below one.\<close>

definition lap_times :: "real \<Rightarrow> real \<Rightarrow> int \<Rightarrow> real list" where
  "lap_times b adjusted_slope stint_laps =
     map (\<lambda>j. b + real j * adjusted_slope) [0..<nat stint_laps]"

text \<open>Lines 128-131: the inner loop over the lap times of one stint.\<close>

fun add_laps :: "real list \<Rightarrow> loop_state \<Rightarrow> loop_state" where
  "add_laps [] st = st"
| "add_laps (lap_time # ts) st =
     add_laps ts
       (st\<lparr>l_current_lap := l_current_lap st + 1,
           l_current_cum := l_current_cum st + lap_time,
           l_cum_times := l_cum_times st @ [l_current_cum st + lap_time]\<rparr>)"

text \<open>Lines 138-141: the pit stop charged after a stint that is not the first.\<close>

definition add_pit :: "real \<Rightarrow> loop_state \<Rightarrow> loop_state" where
  "add_pit pit_time st =
     st\<lparr>l_total_time := l_total_time st + pit_time,
        l_current_cum := l_current_cum st + pit_time,
        l_cum_times := butlast (l_cum_times st) @ [last (l_cum_times st) + pit_time]\<rparr>"

text \<open>One iteration of the loop of line 108. A missing compound raises \<^verbatim>\<open>KeyError\<close>
  (lines 118-119); a stint of zero laps raises \<^verbatim>\<open>ZeroDivisionError\<close> at line 125
  (\<^verbatim>\<open>sum([]) / 0\<close>).\<close>

definition stint_step ::
    "real \<Rightarrow> comp_dict \<Rightarrow> bool \<Rightarrow> real \<Rightarrow> loop_state \<Rightarrow> string \<times> int \<Rightarrow> error + loop_state" where
  "stint_step pit_time team_data is_wet temp_factor st stint =
     (let orig_comp = fst stint; stint_laps = snd stint;
          compound = effective_comp is_wet orig_comp
      in case resolve_entry team_data compound of
           Inl e \<Rightarrow> Inl e
         | Inr (b, s) \<Rightarrow>
             let adjusted_slope = s * temp_factor;
                 stint_ts = lap_times b adjusted_slope stint_laps;
                 stint_time = sum_list stint_ts;
                 deg_penalty = sum_list (map (\<lambda>j. real j * s) [0..<nat stint_laps])
             in if stint_laps = 0 then Inl ZeroDivisionError
                else
                  let avg_lap = stint_time / real_of_int stint_laps;
                      st1 = add_laps stint_ts st;
                      st2 = st1\<lparr>l_total_time := l_total_time st1 + stint_time,
                                l_stint_times := l_stint_times st1 @ [stint_time],
                                l_deg_penalties := l_deg_penalties st1 @ [deg_penalty],
                                l_avg_lap_times := l_avg_lap_times st1 @ [avg_lap]\<rparr>;
                      st3 = (if l_prev_comp st \<noteq> None then add_pit pit_time st2 else st2)
                  in Inr (st3\<lparr>l_prev_comp := Some orig_comp\<rparr>))"

fun run_stints ::
    "real \<Rightarrow> comp_dict \<Rightarrow> bool \<Rightarrow> real \<Rightarrow> loop_state \<Rightarrow> strategy \<Rightarrow> error + loop_state" where
  "run_stints pit_time team_data is_wet temp_factor st [] = Inr st"
| "run_stints pit_time team_data is_wet temp_factor st (stint # rest) =
     (case stint_step pit_time team_data is_wet temp_factor st stint of
        Inl e \<Rightarrow> Inl e
      | Inr st' \<Rightarrow> run_stints pit_time team_data is_wet temp_factor st' rest)"

definition init_state :: loop_state where
  "init_state =
     \<lparr>l_total_time = 0, l_stint_times = [], l_deg_penalties = [], l_avg_lap_times = [],
      l_cum_times = [0], l_current_cum = 0, l_prev_comp = None, l_current_lap = 0\<rparr>"

text \<open>Lines 144-148.\<close>

definition finish :: "bool \<Rightarrow> loop_state \<Rightarrow> analytics" where
  "finish is_wet st =
     \<lparr>stint_times = l_stint_times st, deg_penalties = l_deg_penalties st,
      avg_lap_times = l_avg_lap_times st, cum_times = l_cum_times st,
      total_time = (if is_wet then l_total_time st * 1.1 else l_total_time st)\<rparr>"

section \<open>\<^verbatim>\<open>simulate_strategy\<close> (lines 62-148)\<close>

definition is_wet_of :: "weather \<Rightarrow> bool" where
  "is_wet_of w = (rain_prob w > 0.3)"

definition temp_factor_of :: "weather \<Rightarrow> real" where
  "temp_factor_of w = 1 + max 0 ((track_temp w - 30) / 100)"

text \<open>The result pairs the degradation table as the call leaves it with the returned
  analytics or the exception raised. The table is written (line 100) before the loop
  runs, so an exception of the loop leaves the write in place.\<close>

definition simulate_strategy ::
    "(string \<times> int) list \<Rightarrow> real \<Rightarrow> deg_table \<Rightarrow> string \<Rightarrow> string \<Rightarrow> weather \<Rightarrow> strategy
       \<Rightarrow> deg_table \<times> (error + analytics)" where
  "simulate_strategy track_laps_dict pit_time deg_models track team w strategy =
     (case map_of track_laps_dict track of
        None \<Rightarrow> (deg_models, Inl KeyError)
      | Some total_laps \<Rightarrow>
          if sum_list (map snd strategy) \<noteq> total_laps then (deg_models, Inl ValueError)
          else
            let is_wet = is_wet_of w;
                temp_factor = temp_factor_of w;
                (deg_models', track_data) = resolve_track_data deg_models track team
            in (deg_models',
                case map_of track_data team of
                  None \<Rightarrow> Inl KeyError
                | Some team_data \<Rightarrow>
                    (case run_stints pit_time team_data is_wet temp_factor init_state strategy of
                       Inl e \<Rightarrow> Inl e
                     | Inr st \<Rightarrow> Inr (finish is_wet st))))"

text \<open>The resolution of \<open>(base, slope)\<close> that the simulator performs for one compound:
  lines 74-101 followed by lines 114-119.\<close>

definition team_data_of :: "deg_table \<Rightarrow> string \<Rightarrow> string \<Rightarrow> comp_dict option" where
  "team_data_of deg_models track team =
     map_of (snd (resolve_track_data deg_models track team)) team"

definition lookup :: "deg_table \<Rightarrow> string \<Rightarrow> string \<Rightarrow> string \<Rightarrow> error + (real \<times> real)" where
  "lookup deg_models track team compound =
     (case team_data_of deg_models track team of
        None \<Rightarrow> Inl KeyError
      | Some team_data \<Rightarrow> resolve_entry team_data compound)"

section \<open>\<^verbatim>\<open>optimize_strategy\<close> (lines 150-212)\<close>

text \<open>\<^verbatim>\<open>int(x)\<close> on a float truncates towards zero. The product \<^verbatim>\<open>f * total_laps\<close>
  is taken exactly here; the code truncates the double product, which gives the same
  integer for every total of \<^verbatim>\<open>TRACK_LAPS\<close>.\<close>

definition py_int :: "real \<Rightarrow> int" where
  "py_int x = (if 0 \<le> x then \<lfloor>x\<rfloor> else \<lceil>x\<rceil>)"

text \<open>\<^verbatim>\<open>max(10, min(int(f * total_laps), hi))\<close>, the shape of every split of lines 156-180.\<close>

definition split_laps :: "real \<Rightarrow> int \<Rightarrow> int \<Rightarrow> int" where
  "split_laps f total_laps hi = max 10 (min (py_int (f * real_of_int total_laps)) hi)"

definition candidates :: "int \<Rightarrow> strategy list" where
  "candidates total_laps =
     (let s1 = split_laps 0.3 total_laps (total_laps - 10);
          s2 = split_laps 0.5 total_laps (total_laps - 10);
          s3 = split_laps 0.25 total_laps (total_laps - 20);
          s4 = split_laps 0.35 total_laps (total_laps - s3 - 10);
          s5 = total_laps - s3 - s4;
          s6 = split_laps 0.3 total_laps (total_laps - 20);
          s7 = split_laps 0.4 total_laps (total_laps - s6 - 10);
          s8 = total_laps - s6 - s7;
          s9 = split_laps 0.3 total_laps (total_laps - 20);
          s10 = split_laps 0.3 total_laps (total_laps - s9 - 10);
          s11 = total_laps - s9 - s10;
          s12 = split_laps 0.2 total_laps (total_laps - 20);
          s13 = split_laps 0.3 total_laps (total_laps - s12 - 10);
          s14 = total_laps - s12 - s13
      in [[(''SOFT'', s1), (''HARD'', total_laps - s1)],
          [(''MEDIUM'', s2), (''HARD'', total_laps - s2)],
          [(''SOFT'', s3), (''MEDIUM'', s4), (''HARD'', s5)],
          [(''SOFT'', s6), (''HARD'', s7), (''HARD'', s8)],
          [(''MEDIUM'', s9), (''SOFT'', s10), (''HARD'', s11)],
          [(''SOFT'', s12), (''SOFT'', s13), (''HARD'', s14)]])"

text \<open>The search loop of lines 187-200. \<open>best\<close> is \<open>None\<close> while \<^verbatim>\<open>best_strat\<close> is
  \<^verbatim>\<open>None\<close> and \<^verbatim>\<open>best_time\<close> is infinite, so the first success is always taken. Every
  exception of a candidate is caught; what the failed call wrote to the table stays.\<close>

fun try_candidates ::
    "(string \<times> int) list \<Rightarrow> real \<Rightarrow> string \<Rightarrow> string \<Rightarrow> weather
       \<Rightarrow> deg_table \<times> (strategy \<times> real \<times> analytics) option \<Rightarrow> strategy list
       \<Rightarrow> deg_table \<times> (strategy \<times> real \<times> analytics) option" where
  "try_candidates track_laps_dict pit_time track team w (deg_models, best) [] = (deg_models, best)"
| "try_candidates track_laps_dict pit_time track team w (deg_models, best) (strat # rest) =
     (case simulate_strategy track_laps_dict pit_time deg_models track team w strat of
        (deg_models', Inl e) \<Rightarrow>
          try_candidates track_laps_dict pit_time track team w (deg_models', best) rest
      | (deg_models', Inr sim_result) \<Rightarrow>
          (let time = total_time sim_result in
           if (case best of None \<Rightarrow> True | Some (best_strat, best_time, best_analytics) \<Rightarrow> time < best_time)
           then try_candidates track_laps_dict pit_time track team w
                  (deg_models', Some (strat, time, sim_result)) rest
           else try_candidates track_laps_dict pit_time track team w (deg_models', best) rest))"

text \<open>Line 210.\<close>

definition pit_laps_of :: "strategy \<Rightarrow> int list" where
  "pit_laps_of best_strat =
     map (\<lambda>i. sum_list (map snd (take i best_strat))) [1..<length best_strat]"

text \<open>\<^verbatim>\<open>get_weather\<close> asks a network service; it is a parameter, called only when no
  weather is passed (lines 184-185). The fallback simulation of line 206 runs outside
  any \<^verbatim>\<open>try\<close>, so its exception leaves \<^verbatim>\<open>optimize_strategy\<close>.\<close>

definition optimize_strategy ::
    "(string \<Rightarrow> error + weather) \<Rightarrow> (string \<times> int) list \<Rightarrow> real \<Rightarrow> deg_table \<Rightarrow> string \<Rightarrow> string
       \<Rightarrow> weather option \<Rightarrow> deg_table \<times> (error + (strategy \<times> real \<times> int list \<times> analytics))" where
  "optimize_strategy get_weather track_laps_dict pit_time deg_models track team weather_opt =
     (case map_of track_laps_dict track of
        None \<Rightarrow> (deg_models, Inl KeyError)
      | Some total_laps \<Rightarrow>
          (case (case weather_opt of None \<Rightarrow> get_weather track | Some w \<Rightarrow> Inr w) of
             Inl e \<Rightarrow> (deg_models, Inl e)
           | Inr w \<Rightarrow>
               (case try_candidates track_laps_dict pit_time track team w (deg_models, None)
                       (candidates total_laps) of
                  (deg_models', Some (best_strat, best_time, best_analytics)) \<Rightarrow>
                    (deg_models', Inr (best_strat, best_time, pit_laps_of best_strat, best_analytics))
                | (deg_models', None) \<Rightarrow>
                    (let best_strat = [(''MEDIUM'', total_laps)] in
                     case simulate_strategy track_laps_dict pit_time deg_models' track team w best_strat of
                       (deg_models'', Inl e) \<Rightarrow> (deg_models'', Inl e)
                     | (deg_models'', Inr best_analytics) \<Rightarrow>
                         (deg_models'',
                          Inr (best_strat, total_time best_analytics, pit_laps_of best_strat,
                               best_analytics))))))"

section \<open>Closed forms used in the proofs\<close>

text \<open>Running sums: the values the inner loop appends when it starts from \<open>c\<close>.\<close>

fun cum_from :: "real \<Rightarrow> real list \<Rightarrow> real list" where
  "cum_from c [] = []"
| "cum_from c (t # ts) = (c + t) # cum_from (c + t) ts"

text \<open>The lap times and the stint time of one stint, from the entry its compound resolves to.\<close>

definition stint_laps_of :: "comp_dict \<Rightarrow> bool \<Rightarrow> real \<Rightarrow> string \<times> int \<Rightarrow> real list" where
  "stint_laps_of team_data is_wet temp_factor stint =
     (case resolve_entry team_data (effective_comp is_wet (fst stint)) of
        Inl e \<Rightarrow> []
      | Inr (b, s) \<Rightarrow> lap_times b (s * temp_factor) (snd stint))"

definition stint_time_of :: "comp_dict \<Rightarrow> bool \<Rightarrow> real \<Rightarrow> string \<times> int \<Rightarrow> real" where
  "stint_time_of team_data is_wet temp_factor stint =
     sum_list (stint_laps_of team_data is_wet temp_factor stint)"

text \<open>The lap times of a whole plan with the pit stop charged where the loop charges it:
  on the last lap of every stint but the first (\<open>first\<close> tells whether the plan starts
  the race).\<close>

fun charged_laps :: "real \<Rightarrow> comp_dict \<Rightarrow> bool \<Rightarrow> real \<Rightarrow> bool \<Rightarrow> strategy \<Rightarrow> real list" where
  "charged_laps pit_time team_data is_wet temp_factor first [] = []"
| "charged_laps pit_time team_data is_wet temp_factor first (stint # rest) =
     (let ts = stint_laps_of team_data is_wet temp_factor stint
      in (if first then ts else butlast ts @ [last ts + pit_time])
         @ charged_laps pit_time team_data is_wet temp_factor False rest)"

section \<open>Example inputs\<close>

text \<open>Monza stored for Ferrari (SOFT only) and Mercedes (SOFT and HARD); Bahrain for
  Ferrari. A table of this shape is what \<^verbatim>\<open>prepare_data\<close> leaves when a compound could
  not be fitted for a team.\<close>

definition monza_table :: deg_table where
  "monza_table =
     [(''Monza'', [(''Ferrari'', [(''SOFT'', \<lparr>base = 80, slope = 0.1\<rparr>)]),
                   (''Mercedes'', [(''SOFT'', \<lparr>base = 82, slope = 0.2\<rparr>),
                                   (''HARD'', \<lparr>base = 84, slope = 0.05\<rparr>)])]),
      (''Bahrain'', [(''Ferrari'', [(''SOFT'', \<lparr>base = 90, slope = 0.1\<rparr>)])])]"

definition dry_weather :: weather where
  "dry_weather = \<lparr>track_temp = 30, rain_prob = 0.1\<rparr>"

definition three_laps :: "(string \<times> int) list" where
  "three_laps = [(''Monza'', 3)]"

section \<open>The stint loop in closed form\<close>

lemma length_cum_from [simp]: "length (cum_from c ts) = length ts"
  by (induction ts arbitrary: c) auto

lemma cum_from_Nil_iff [simp]: "cum_from c ts = [] \<longleftrightarrow> ts = []"
  by (cases ts) auto

lemma cum_from_append: "cum_from c (xs @ ys) = cum_from c xs @ cum_from (c + sum_list xs) ys"
  by (induction xs arbitrary: c) (auto simp: add.assoc)

lemma cum_from_snoc: "cum_from c (xs @ [x]) = cum_from c xs @ [c + sum_list xs + x]"
  by (simp add: cum_from_append)

lemma last_cum_from: "ts \<noteq> [] \<Longrightarrow> last (cum_from c ts) = c + sum_list ts"
  by (induction ts arbitrary: c) (auto simp: add.assoc)

lemma cum_from_charge_last:
  assumes "ts \<noteq> []"
  shows "butlast (cum_from c ts) @ [last (cum_from c ts) + p] = cum_from c (butlast ts @ [last ts + p])"
proof -
  obtain xs x where ts: "ts = xs @ [x]"
    using assms by (metis append_butlast_last_id)
  show ?thesis
    by (simp add: ts cum_from_snoc)
qed

lemma sum_list_charge_last:
  "ts \<noteq> [] \<Longrightarrow> sum_list (butlast ts @ [last ts + p]) = sum_list ts + (p::real)"
proof -
  assume "ts \<noteq> []"
  then obtain xs x where ts: "ts = xs @ [x]"
    by (metis append_butlast_last_id)
  show ?thesis by (simp add: ts)
qed

lemma add_laps_closed:
  "add_laps ts st =
     st\<lparr>l_current_lap := l_current_lap st + int (length ts),
        l_current_cum := l_current_cum st + sum_list ts,
        l_cum_times := l_cum_times st @ cum_from (l_current_cum st) ts\<rparr>"
  by (induction ts arbitrary: st) (auto simp: add.assoc)

lemma length_lap_times [simp]: "length (lap_times b a n) = nat n"
  by (simp add: lap_times_def)

lemma stint_step_closed:
  fixes tf pit :: real and st :: loop_state
  assumes n: "0 < n" and r: "resolve_entry td (effective_comp wet c) = Inr (b, s)"
  defines "ts \<equiv> stint_laps_of td wet tf (c, n)"
  defines "xs \<equiv> (if l_prev_comp st = None then ts else butlast ts @ [last ts + pit])"
  shows "\<exists>st'. stint_step pit td wet tf st (c, n) = Inr st' \<and>
           l_cum_times st' = l_cum_times st @ cum_from (l_current_cum st) xs \<and>
           l_current_cum st' = l_current_cum st + sum_list xs \<and>
           l_total_time st' = l_total_time st + sum_list xs \<and>
           l_current_lap st' = l_current_lap st + n \<and>
           l_stint_times st' = l_stint_times st @ [sum_list ts] \<and>
           l_prev_comp st' = Some c"
proof -
  have ts: "ts = lap_times b (s * tf) n"
    by (simp add: ts_def stint_laps_of_def r)
  have ne: "ts \<noteq> []"
    using n by (auto simp: ts lap_times_def)
  have len: "int (length ts) = n"
    using n by (simp add: ts)
  show ?thesis
  proof (cases "l_prev_comp st = None")
    case True
    then show ?thesis
      using n len by (simp add: stint_step_def r Let_def ts [symmetric] xs_def add_laps_closed)
  next
    case False
    define ys where "ys = butlast ts @ [last ts + pit]"
    have xs: "xs = ys"
      unfolding xs_def ys_def using False by auto
    have h1: "butlast (l_cum_times st @ cum_from (l_current_cum st) ts)
                @ [last (l_cum_times st @ cum_from (l_current_cum st) ts) + pit]
              = l_cum_times st @ cum_from (l_current_cum st) ys"
      using ne cum_from_charge_last [OF ne, of "l_current_cum st" pit]
      by (simp add: butlast_append ys_def)
    have h2: "sum_list ys = sum_list ts + pit"
      using sum_list_charge_last [OF ne, of pit] by (simp add: ys_def)
    have "stint_step pit td wet tf st (c, n) =
            Inr (add_pit pit ((add_laps ts st)
                   \<lparr>l_total_time := l_total_time (add_laps ts st) + sum_list ts,
                      l_stint_times := l_stint_times (add_laps ts st) @ [sum_list ts],
                      l_deg_penalties := l_deg_penalties (add_laps ts st)
                         @ [sum_list (map (\<lambda>j. real j * s) [0..<nat n])],
                      l_avg_lap_times := l_avg_lap_times (add_laps ts st)
                         @ [sum_list ts / real_of_int n]\<rparr>)
                 \<lparr>l_prev_comp := Some c\<rparr>)"
      using n False by (simp add: stint_step_def r Let_def ts [symmetric])
    then show ?thesis
      using len h1 h2 by (simp add: xs add_pit_def add_laps_closed)
  qed
qed

lemma run_stints_closed:
  fixes tf pit :: real and st :: loop_state
  assumes "\<forall>stint \<in> set plan. 0 < snd stint \<and>
             (\<exists>b s. resolve_entry td (effective_comp wet (fst stint)) = Inr (b, s))"
  defines "xs \<equiv> charged_laps pit td wet tf (l_prev_comp st = None) plan"
  shows "\<exists>st'. run_stints pit td wet tf st plan = Inr st' \<and>
           l_cum_times st' = l_cum_times st @ cum_from (l_current_cum st) xs \<and>
           l_current_cum st' = l_current_cum st + sum_list xs \<and>
           l_total_time st' = l_total_time st + sum_list xs \<and>
           l_current_lap st' = l_current_lap st + sum_list (map snd plan) \<and>
           l_stint_times st' = l_stint_times st @ map (stint_time_of td wet tf) plan"
  using assms(1) unfolding xs_def
proof (induction plan arbitrary: st)
  case Nil
  then show ?case by simp
next
  case (Cons stint rest)
  obtain c n where stint: "stint = (c, n)" by (cases stint)
  from Cons.prems obtain b s where n: "0 < n"
    and r: "resolve_entry td (effective_comp wet c) = Inr (b, s)"
    by (auto simp: stint)
  from stint_step_closed [OF n r, of pit tf st]
  obtain st1 where step: "stint_step pit td wet tf st (c, n) = Inr st1"
    and f: "l_cum_times st1 = l_cum_times st @ cum_from (l_current_cum st)
              (if l_prev_comp st = None then stint_laps_of td wet tf (c, n)
               else butlast (stint_laps_of td wet tf (c, n)) @ [last (stint_laps_of td wet tf (c, n)) + pit])"
      "l_current_cum st1 = l_current_cum st + sum_list
              (if l_prev_comp st = None then stint_laps_of td wet tf (c, n)
               else butlast (stint_laps_of td wet tf (c, n)) @ [last (stint_laps_of td wet tf (c, n)) + pit])"
      "l_total_time st1 = l_total_time st + sum_list
              (if l_prev_comp st = None then stint_laps_of td wet tf (c, n)
               else butlast (stint_laps_of td wet tf (c, n)) @ [last (stint_laps_of td wet tf (c, n)) + pit])"
      "l_current_lap st1 = l_current_lap st + n"
      "l_stint_times st1 = l_stint_times st @ [sum_list (stint_laps_of td wet tf (c, n))]"
      "l_prev_comp st1 = Some c"
    by blast
  from Cons.IH [of st1] Cons.prems
  obtain st' where run: "run_stints pit td wet tf st1 rest = Inr st'"
    and g: "l_cum_times st' = l_cum_times st1 @ cum_from (l_current_cum st1)
              (charged_laps pit td wet tf (l_prev_comp st1 = None) rest)"
      "l_current_cum st' = l_current_cum st1 + sum_list (charged_laps pit td wet tf (l_prev_comp st1 = None) rest)"
      "l_total_time st' = l_total_time st1 + sum_list (charged_laps pit td wet tf (l_prev_comp st1 = None) rest)"
      "l_current_lap st' = l_current_lap st1 + sum_list (map snd rest)"
      "l_stint_times st' = l_stint_times st1 @ map (stint_time_of td wet tf) rest"
    by auto
  show ?case
    using step run f g
    by (simp add: stint Let_def cum_from_append stint_time_of_def)
qed

section \<open>Fallback resolution\<close>

lemma map_of_dict_set: "map_of (dict_set d k v) = (map_of d)(k \<mapsto> v)"
  by (induction d) (auto simp: fun_eq_iff)

lemma collect_Nil_iff: "collect ds c = [] \<longleftrightarrow> (\<forall>d \<in> set ds. map_of d c = None)"
  by (induction ds) (auto simp: collect_def split: option.splits)

lemma set_collect: "set (collect ds c) = {e. \<exists>d \<in> set ds. map_of d c = Some e}"
  by (induction ds) (auto simp: collect_def split: option.splits)

lemma collect_single: "collect [d] c = (case map_of d c of Some e \<Rightarrow> [e] | None \<Rightarrow> [])"
  by (simp add: collect_def)

lemma mean_single [simp]: "mean [x] = x"
  by (simp add: mean_def)

lemma map_of_average_entries:
  "map_of (average_entries ds) c =
     (if c \<in> set dry_compounds \<and> collect ds c \<noteq> []
      then Some \<lparr>base = mean (map base (collect ds c)), slope = mean (map slope (collect ds c))\<rparr>
      else None)"
  by (simp add: average_entries_def dry_compounds_def Let_def)

lemma map_of_average_single:
  "map_of (average_entries [d]) c = (if c \<in> set dry_compounds then map_of d c else None)"
  by (auto simp: map_of_average_entries collect_single split: option.splits)

lemma team_data_of_track_absent:
  assumes "map_of tbl track = None"
  shows "\<exists>cd. team_data_of tbl track team = Some cd \<and>
           (\<forall>c \<in> set dry_compounds.
              map_of cd c = map_of (average_entries (concat (map (map snd \<circ> snd) tbl))) c)"
proof (cases "team = ''Other''")
  case True
  then show ?thesis
    using assms by (simp add: team_data_of_def resolve_track_data_def Let_def)
next
  case False
  then show ?thesis
    using assms
    by (simp add: team_data_of_def resolve_track_data_def Let_def map_of_dict_set
        map_of_average_single)
qed

lemma team_data_of_team_absent:
  assumes "map_of tbl track = Some td" "map_of td team = None"
  shows "team_data_of tbl track team = Some (average_entries (map snd td))"
  using assms
  by (simp add: team_data_of_def resolve_track_data_def Let_def map_of_dict_set)

lemma team_data_of_present:
  assumes "map_of tbl track = Some td" "map_of td team = Some cd"
  shows "team_data_of tbl track team = Some cd"
  using assms
  by (simp add: team_data_of_def resolve_track_data_def Let_def)

lemma team_data_of_Some: "\<exists>cd. team_data_of tbl track team = Some cd"
proof (cases "map_of tbl track")
  case None
  then show ?thesis using team_data_of_track_absent by blast
next
  case (Some td)
  then show ?thesis
    by (cases "map_of td team") (auto simp: team_data_of_team_absent team_data_of_present)
qed

lemma dry_not_intermediate: "c \<in> set dry_compounds \<Longrightarrow> c \<noteq> ''INTERMEDIATE''"
  by (auto simp: dry_compounds_def)

lemma resolve_entry_dry:
  "c \<noteq> ''INTERMEDIATE'' \<Longrightarrow>
   resolve_entry cd c = (case map_of cd c of None \<Rightarrow> Inl KeyError | Some e \<Rightarrow> Inr (base e, slope e))"
  by (simp add: resolve_entry_def)

lemma lookup_track_absent:
  assumes "map_of tbl track = None" "c \<in> set dry_compounds"
  shows "lookup tbl track team c =
           (let es = collect (concat (map (map snd \<circ> snd) tbl)) c in
            if es = [] then Inl KeyError else Inr (mean (map base es), mean (map slope es)))"
proof -
  obtain cd where cd: "team_data_of tbl track team = Some cd"
    and m: "map_of cd c = map_of (average_entries (concat (map (map snd \<circ> snd) tbl))) c"
    using team_data_of_track_absent [OF assms(1), of team] assms(2) by blast
  show ?thesis
    using assms(2) dry_not_intermediate [OF assms(2)]
    by (simp add: lookup_def cd resolve_entry_dry m map_of_average_entries Let_def)
qed

lemma lookup_team_absent:
  assumes "map_of tbl track = Some td" "map_of td team = None" "c \<in> set dry_compounds"
  shows "lookup tbl track team c =
           (let es = collect (map snd td) c in
            if es = [] then Inl KeyError else Inr (mean (map base es), mean (map slope es)))"
  using assms(3) dry_not_intermediate [OF assms(3)]
  by (simp add: lookup_def team_data_of_team_absent [OF assms(1,2)] resolve_entry_dry
      map_of_average_entries Let_def)

lemma lookup_present:
  assumes "map_of tbl track = Some td" "map_of td team = Some cd" "c \<noteq> ''INTERMEDIATE''"
  shows "lookup tbl track team c =
           (case map_of cd c of None \<Rightarrow> Inl KeyError | Some e \<Rightarrow> Inr (base e, slope e))"
  using assms(3)
  by (simp add: lookup_def team_data_of_present [OF assms(1,2)] resolve_entry_dry)

lemma simulate_unfold:
  assumes "map_of L track = Some T" "sum_list (map snd plan) = T"
    and "team_data_of tbl track team = Some td"
  shows "snd (simulate_strategy L pit tbl track team w plan) =
           (case run_stints pit td (is_wet_of w) (temp_factor_of w) init_state plan of
              Inl e \<Rightarrow> Inl e
            | Inr st \<Rightarrow> Inr (finish (is_wet_of w) st))"
  using assms
  by (simp add: simulate_strategy_def team_data_of_def Let_def case_prod_beta)

lemma simulate_table:
  "fst (simulate_strategy L pit tbl track team w plan) =
     (case map_of L track of
        None \<Rightarrow> tbl
      | Some T \<Rightarrow> if sum_list (map snd plan) = T then fst (resolve_track_data tbl track team) else tbl)"
  by (simp add: simulate_strategy_def Let_def case_prod_beta split: option.splits)

lemma resolve_track_data_frame:
  assumes "map_of tbl track = None \<or> (\<exists>td cd. map_of tbl track = Some td \<and> map_of td team = Some cd)"
  shows "fst (resolve_track_data tbl track team) = tbl"
  using assms by (auto simp: resolve_track_data_def Let_def)

lemma stint_step_ok_iff:
  "(\<exists>st'. stint_step pit td wet tf st stint = Inr st') \<longleftrightarrow>
     snd stint \<noteq> 0 \<and> (\<exists>b s. resolve_entry td (effective_comp wet (fst stint)) = Inr (b, s))"
  by (auto simp: stint_step_def Let_def split: sum.splits prod.splits)

lemma stint_step_prev_stint_times:
  "stint_step pit td wet tf st stint = Inr st' \<Longrightarrow>
     l_stint_times st' = l_stint_times st @ [sum_list (stint_laps_of td wet tf stint)]"
  by (auto simp: stint_step_def stint_laps_of_def Let_def add_laps_closed add_pit_def
      split: sum.splits prod.splits if_splits)

lemma run_stints_ok_iff:
  "(\<exists>st'. run_stints pit td wet tf st plan = Inr st') \<longleftrightarrow>
     (\<forall>stint \<in> set plan. snd stint \<noteq> 0 \<and>
        (\<exists>b s. resolve_entry td (effective_comp wet (fst stint)) = Inr (b, s)))"
proof (induction plan arbitrary: st)
  case Nil
  then show ?case by simp
next
  case (Cons stint rest)
  show ?case
  proof (cases "stint_step pit td wet tf st stint")
    case (Inl e)
    then show ?thesis
      using stint_step_ok_iff [of pit td wet tf st stint] by auto
  next
    case (Inr st1)
    then show ?thesis
      using stint_step_ok_iff [of pit td wet tf st stint] Cons.IH [of st1] by auto
  qed
qed

lemma run_stints_stint_times:
  "run_stints pit td wet tf st plan = Inr st' \<Longrightarrow>
     l_stint_times st' = l_stint_times st @ map (stint_time_of td wet tf) plan"
proof (induction plan arbitrary: st)
  case Nil
  then show ?case by simp
next
  case (Cons stint rest)
  then obtain st1 where s: "stint_step pit td wet tf st stint = Inr st1"
    and r: "run_stints pit td wet tf st1 rest = Inr st'"
    by (auto split: sum.splits)
  show ?case
    using Cons.IH [OF r] stint_step_prev_stint_times [OF s] by (simp add: stint_time_of_def)
qed

lemma simulate_ok_iff:
  assumes "map_of L track = Some T" "sum_list (map snd plan) = T"
  shows "(\<exists>a. snd (simulate_strategy L pit tbl track team w plan) = Inr a) \<longleftrightarrow>
           (\<forall>stint \<in> set plan. snd stint \<noteq> 0 \<and>
              (\<exists>b s. lookup tbl track team (effective_comp (is_wet_of w) (fst stint)) = Inr (b, s)))"
proof -
  obtain td where td: "team_data_of tbl track team = Some td"
    using team_data_of_Some by blast
  have "(\<exists>a. snd (simulate_strategy L pit tbl track team w plan) = Inr a) \<longleftrightarrow>
          (\<exists>st'. run_stints pit td (is_wet_of w) (temp_factor_of w) init_state plan = Inr st')"
    by (auto simp: simulate_unfold [OF assms td] split: sum.splits)
  then show ?thesis
    by (simp add: run_stints_ok_iff lookup_def td)
qed

section \<open>Properties of \<^verbatim>\<open>simulate_strategy\<close>\<close>

subsection \<open>Plan validation\<close>

lemma resolve_entry_not_ValueError: "resolve_entry td c \<noteq> Inl ValueError"
  by (simp add: resolve_entry_def split: option.splits)

lemma stint_step_not_ValueError: "stint_step pit td wet tf st stint \<noteq> Inl ValueError"
  using resolve_entry_not_ValueError [of td "effective_comp wet (fst stint)"]
  by (auto simp: stint_step_def Let_def split: sum.splits prod.splits)

lemma run_stints_not_ValueError: "run_stints pit td wet tf st plan \<noteq> Inl ValueError"
  by (induction plan arbitrary: st) (auto simp: stint_step_not_ValueError split: sum.splits)

text \<open>
  Claim C2. For a track of the registry, \<^verbatim>\<open>simulate_strategy\<close> raises the plan-validation
  error (the \<^verbatim>\<open>ValueError\<close> of line 66) exactly when the lap counts of the plan do not
  sum to the registered total; with a matching sum, whatever else the call raises is not
  that error.
\<close>

theorem simulate_invalid_plan_iff:
  assumes "map_of track_laps_dict track = Some total_laps"
  shows "snd (simulate_strategy track_laps_dict pit deg_models track team w plan) = Inl ValueError
           \<longleftrightarrow> sum_list (map snd plan) \<noteq> total_laps"
  using assms run_stints_not_ValueError
  by (auto simp: simulate_strategy_def Let_def split: prod.splits option.splits sum.splits)

theorem simulate_invalid_plan_iff_witness:
  "map_of TRACK_LAPS ''Monza'' = Some 53 \<and>
   (snd (simulate_strategy TRACK_LAPS pit_time_avg [] ''Monza'' ''Ferrari''
           \<lparr>track_temp = 30, rain_prob = 0.1\<rparr> [(''SOFT'', 20), (''HARD'', 30)]) = Inl ValueError
      \<longleftrightarrow> sum_list (map snd [(''SOFT'', 20 :: int), (''HARD'', 30)]) \<noteq> 53)"
proof -
  have h: "map_of TRACK_LAPS ''Monza'' = Some 53"
    by (simp add: TRACK_LAPS_def)
  show ?thesis
    using h simulate_invalid_plan_iff [OF h, of pit_time_avg "[]" "''Ferrari''"
        "\<lparr>track_temp = 30, rain_prob = 0.1\<rparr>" "[(''SOFT'', 20), (''HARD'', 30)]"]
    by blast
qed


subsection \<open>Degradation lookup\<close>

text \<open>
  Claim C1 says that the resolution of \<open>(base, slope)\<close> never fails for a dry compound
  the table holds, whatever (track, team, compound) combination is missing. The fallbacks
  of lines 74-101 cover a missing track and a missing team only; lines 118-119 index
  \<^verbatim>\<open>track_data[team][comp]\<close> directly. Ferrari is stored at Monza without HARD, Mercedes
  with it: the table is not empty for HARD, no fallback applies, and the lookup and the
  simulation raise \<^verbatim>\<open>KeyError\<close>.
\<close>

theorem lookup_raises_for_stored_team:
  "collect (concat (map (map snd \<circ> snd) monza_table)) ''HARD'' \<noteq> [] \<and>
   lookup monza_table ''Monza'' ''Ferrari'' ''HARD'' = Inl KeyError \<and>
   snd (simulate_strategy TRACK_LAPS pit_time_avg monza_table ''Monza'' ''Ferrari'' dry_weather
          [(''HARD'', 53)]) = Inl KeyError"
proof -
  have "collect (concat (map (map snd \<circ> snd) monza_table)) ''HARD'' \<noteq> []"
    by (simp add: monza_table_def collect_def)
  moreover have "lookup monza_table ''Monza'' ''Ferrari'' ''HARD'' = Inl KeyError"
    by (simp add: lookup_def team_data_of_def monza_table_def
        resolve_track_data_def resolve_entry_def Let_def)
  moreover have "snd (simulate_strategy TRACK_LAPS pit_time_avg monza_table ''Monza'' ''Ferrari''
                        dry_weather [(''HARD'', 53)]) = Inl KeyError"
    by (simp add: simulate_strategy_def TRACK_LAPS_def monza_table_def dry_weather_def
        resolve_track_data_def is_wet_of_def temp_factor_of_def stint_step_def effective_comp_def
        resolve_entry_def Let_def)
  ultimately show ?thesis by blast
qed

text \<open>
  Claim C7. With the track stored and the team missing under it, a dry compound that some
  team of the track has resolves to the mean of the bases and the mean of the slopes of
  the teams of that track that have it. With Monza stored for Ferrari and Mercedes only,
  McLaren's SOFT entry at Monza is the average of Ferrari's and Mercedes' SOFT entries.
\<close>

theorem lookup_team_absent_average:
  "(map_of tbl track = Some td \<longrightarrow> map_of td team = None \<longrightarrow>
      compound \<in> set dry_compounds \<longrightarrow> collect (map snd td) compound \<noteq> [] \<longrightarrow>
      set (collect (map snd td) compound) = {e. \<exists>cd \<in> set (map snd td). map_of cd compound = Some e} \<and>
      lookup tbl track team compound =
        Inr (mean (map base (collect (map snd td) compound)),
             mean (map slope (collect (map snd td) compound)))) \<and>
   (map_of tbl ''Monza'' = Some [(''Ferrari'', cf), (''Mercedes'', cm)] \<longrightarrow>
      map_of cf ''SOFT'' = Some ef \<longrightarrow> map_of cm ''SOFT'' = Some em \<longrightarrow>
      lookup tbl ''Monza'' ''McLaren'' ''SOFT'' =
        Inr ((base ef + base em) / 2, (slope ef + slope em) / 2))"
proof (intro conjI impI)
  assume "map_of tbl track = Some td" "map_of td team = None"
    "compound \<in> set dry_compounds" "collect (map snd td) compound \<noteq> []"
  then show "lookup tbl track team compound =
        Inr (mean (map base (collect (map snd td) compound)),
             mean (map slope (collect (map snd td) compound)))"
    using lookup_team_absent [of tbl track td team compound] by (simp add: Let_def)
next
  show "set (collect (map snd td) compound) = {e. \<exists>cd \<in> set (map snd td). map_of cd compound = Some e}"
    by (rule set_collect)
next
  assume m: "map_of tbl ''Monza'' = Some [(''Ferrari'', cf), (''Mercedes'', cm)]"
    and f: "map_of cf ''SOFT'' = Some ef" and g: "map_of cm ''SOFT'' = Some em"
  have "''SOFT'' \<in> set dry_compounds"
    by (simp add: dry_compounds_def)
  then show "lookup tbl ''Monza'' ''McLaren'' ''SOFT'' =
        Inr ((base ef + base em) / 2, (slope ef + slope em) / 2)"
    using lookup_team_absent [OF m, of "''McLaren''" "''SOFT''"] f g
    by (simp add: collect_def mean_def)
qed

theorem lookup_team_absent_average_witness:
  "map_of monza_table ''Monza'' =
     Some [(''Ferrari'', [(''SOFT'', \<lparr>base = 80, slope = 0.1\<rparr>)]),
           (''Mercedes'', [(''SOFT'', \<lparr>base = 82, slope = 0.2\<rparr>),
                           (''HARD'', \<lparr>base = 84, slope = 0.05\<rparr>)])] \<and>
   lookup monza_table ''Monza'' ''McLaren'' ''SOFT'' = Inr (81, 0.15)"
proof -
  have m: "map_of monza_table ''Monza'' =
     Some [(''Ferrari'', [(''SOFT'', \<lparr>base = 80, slope = 0.1\<rparr>)]),
           (''Mercedes'', [(''SOFT'', \<lparr>base = 82, slope = 0.2\<rparr>),
                           (''HARD'', \<lparr>base = 84, slope = 0.05\<rparr>)])]"
    by (simp add: monza_table_def)
  show ?thesis
    using m lookup_team_absent_average [of monza_table "''Monza''"
        "[(''Ferrari'', [(''SOFT'', \<lparr>base = 80, slope = 0.1\<rparr>)]),
          (''Mercedes'', [(''SOFT'', \<lparr>base = 82, slope = 0.2\<rparr>),
                          (''HARD'', \<lparr>base = 84, slope = 0.05\<rparr>)])]"
        "''McLaren''" "''SOFT''"
        "[(''SOFT'', \<lparr>base = 80, slope = 0.1\<rparr>)]"
        "[(''SOFT'', \<lparr>base = 82, slope = 0.2\<rparr>), (''HARD'', \<lparr>base = 84, slope = 0.05\<rparr>)]"
        "\<lparr>base = 80, slope = 0.1\<rparr>" "\<lparr>base = 82, slope = 0.2\<rparr>"]
    by (simp add: dry_compounds_def collect_def mean_def)
qed

subsection \<open>Writes to the degradation table\<close>

text \<open>The table is left alone when the track is missing (the fallback dictionary is
  fresh) and when the team is stored under the track.\<close>

lemma simulate_table_frame:
  assumes "map_of tbl track = None \<or> (\<exists>td cd. map_of tbl track = Some td \<and> map_of td team = Some cd)"
  shows "fst (simulate_strategy L pit tbl track team w plan) = tbl"
  using resolve_track_data_frame [OF assms]
  by (simp add: simulate_table split: option.splits)

text \<open>
  Claim C3 says the degradation table is the same after every call. With the track stored
  and the team missing under it, line 100 assigns into \<^verbatim>\<open>deg_models[track]\<close> itself: after
  simulating McLaren at Monza the table holds a McLaren entry.
\<close>

theorem simulate_writes_table:
  "fst (simulate_strategy three_laps pit_time_avg monza_table ''Monza'' ''McLaren'' dry_weather
          [(''SOFT'', 3)]) =
     [(''Monza'', [(''Ferrari'', [(''SOFT'', \<lparr>base = 80, slope = 0.1\<rparr>)]),
                   (''Mercedes'', [(''SOFT'', \<lparr>base = 82, slope = 0.2\<rparr>),
                                   (''HARD'', \<lparr>base = 84, slope = 0.05\<rparr>)]),
                   (''McLaren'', [(''SOFT'', \<lparr>base = 81, slope = 0.15\<rparr>),
                                  (''HARD'', \<lparr>base = 84, slope = 0.05\<rparr>)])]),
      (''Bahrain'', [(''Ferrari'', [(''SOFT'', \<lparr>base = 90, slope = 0.1\<rparr>)])])] \<and>
   fst (simulate_strategy three_laps pit_time_avg monza_table ''Monza'' ''McLaren'' dry_weather
          [(''SOFT'', 3)]) \<noteq> monza_table"
  by (simp add: simulate_table three_laps_def monza_table_def
      resolve_track_data_def average_entries_def dry_compounds_def collect_def mean_def Let_def)

subsection \<open>Cumulative times and pit stops\<close>

lemma nth_cum_from: "k < length ts \<Longrightarrow> cum_from c ts ! k = c + sum_list (take (Suc k) ts)"
proof (induction ts arbitrary: c k)
  case Nil
  then show ?case by simp
next
  case (Cons t ts)
  then show ?case by (cases k) (auto simp: add.assoc)
qed

lemma cum_from_ge: "\<forall>t \<in> set ts. 0 \<le> t \<Longrightarrow> y \<in> set (cum_from c ts) \<Longrightarrow> c \<le> y"
proof (induction ts arbitrary: c)
  case Nil
  then show ?case by simp
next
  case (Cons t ts)
  have "0 \<le> t" using Cons.prems(1) by simp
  from Cons.prems(2) have "y = c + t \<or> y \<in> set (cum_from (c + t) ts)" by simp
  then show ?case
  proof
    assume "y = c + t"
    then show ?thesis using \<open>0 \<le> t\<close> by simp
  next
    assume "y \<in> set (cum_from (c + t) ts)"
    then have "c + t \<le> y" using Cons.IH [of "c + t"] Cons.prems(1) by simp
    then show ?thesis using \<open>0 \<le> t\<close> by linarith
  qed
qed

lemma sorted_cum_from: "\<forall>t \<in> set ts. 0 \<le> t \<Longrightarrow> sorted (c # cum_from c ts)"
proof (induction ts arbitrary: c)
  case Nil
  then show ?case by simp
next
  case (Cons t ts)
  have "sorted ((c + t) # cum_from (c + t) ts)"
    using Cons by simp
  moreover have "\<forall>y \<in> set (cum_from c (t # ts)). c \<le> y"
    using cum_from_ge [OF Cons.prems] by blast
  ultimately show ?case by simp
qed

lemma last_cons_cum_from: "last (c # cum_from c ts) = c + sum_list ts"
  by (cases "ts = []") (simp_all add: last_cum_from)

lemma stint_laps_of_resolved:
  "resolve_entry td (effective_comp wet c) = Inr (b, s) \<Longrightarrow>
     stint_laps_of td wet tf (c, n) = lap_times b (s * tf) n"
  by (simp add: stint_laps_of_def)

lemma charged_laps_props:
  fixes pit tf :: real
  assumes "\<forall>stint \<in> set plan. 0 < snd stint \<and>
             (\<exists>b s. resolve_entry td (effective_comp wet (fst stint)) = Inr (b, s))"
  shows "length (charged_laps pit td wet tf first plan) = nat (sum_list (map snd plan)) \<and>
         sum_list (charged_laps pit td wet tf first plan) =
           sum_list (map (stint_time_of td wet tf) plan)
             + real (if first then length plan - 1 else length plan) * pit"
  using assms
proof (induction plan arbitrary: first)
  case Nil
  then show ?case by simp
next
  case (Cons stint rest)
  obtain c n where stint: "stint = (c, n)" by (cases stint)
  from Cons.prems obtain b s where n: "0 < n"
    and r: "resolve_entry td (effective_comp wet c) = Inr (b, s)"
    by (auto simp: stint)
  define ts where "ts = stint_laps_of td wet tf (c, n)"
  have len: "length ts = nat n"
    by (simp add: ts_def stint_laps_of_resolved [OF r])
  then have ne: "ts \<noteq> []" using n by auto
  have nonneg: "0 \<le> sum_list (map snd rest)"
    using Cons.prems by (intro sum_list_nonneg) auto
  have IH: "length (charged_laps pit td wet tf False rest) = nat (sum_list (map snd rest))"
    "sum_list (charged_laps pit td wet tf False rest) =
       sum_list (map (stint_time_of td wet tf) rest) + real (length rest) * pit"
    using Cons.IH [of False] Cons.prems by auto
  have stt: "stint_time_of td wet tf (c, n) = sum_list ts"
    by (simp add: stint_time_of_def ts_def)
  define ys where "ys = (if first then ts else butlast ts @ [last ts + pit])"
  have l2: "length ys = nat n"
    using ne len by (cases ts rule: rev_cases) (auto simp: ys_def)
  have s2: "sum_list ys = sum_list ts + (if first then 0 else pit)"
    using sum_list_charge_last [OF ne, of pit] by (simp add: ys_def)
  have unf: "charged_laps pit td wet tf first ((c, n) # rest) =
               ys @ charged_laps pit td wet tf False rest"
    by (simp add: Let_def ts_def ys_def)
  have "length (charged_laps pit td wet tf first (stint # rest)) = nat (sum_list (map snd (stint # rest)))"
    using n nonneg l2 IH(1) by (simp add: stint unf nat_add_distrib del: charged_laps.simps)
  moreover have "sum_list (charged_laps pit td wet tf first (stint # rest)) =
           sum_list (map (stint_time_of td wet tf) (stint # rest))
             + real (if first then length (stint # rest) - 1 else length (stint # rest)) * pit"
    using s2 IH(2) by (simp add: stint unf stt algebra_simps del: charged_laps.simps)
  ultimately show ?case by blast
qed

lemma lap_times_nonneg:
  assumes "0 \<le> b" "0 \<le> a" "t \<in> set (lap_times b a n)"
  shows "0 \<le> t"
  using assms by (auto simp: lap_times_def)

lemma charged_laps_nonneg:
  fixes pit tf :: real
  assumes "0 \<le> pit" "0 \<le> tf"
    and "\<forall>stint \<in> set plan. 0 < snd stint \<and>
             (\<exists>b s. resolve_entry td (effective_comp wet (fst stint)) = Inr (b, s) \<and> 0 \<le> b \<and> 0 \<le> s)"
  shows "\<forall>t \<in> set (charged_laps pit td wet tf first plan). 0 \<le> t"
  using assms(3)
proof (induction plan arbitrary: first)
  case Nil
  then show ?case by simp
next
  case (Cons stint rest)
  obtain c n where stint: "stint = (c, n)" by (cases stint)
  from Cons.prems obtain b s where n: "0 < n"
    and r: "resolve_entry td (effective_comp wet c) = Inr (b, s)" and bs: "0 \<le> b" "0 \<le> s"
    by (auto simp: stint)
  define ts where "ts = stint_laps_of td wet tf (c, n)"
  have ts: "ts = lap_times b (s * tf) n"
    by (simp add: ts_def stint_laps_of_resolved [OF r])
  have ne: "ts \<noteq> []" using n by (auto simp: ts lap_times_def)
  have pos: "\<forall>t \<in> set ts. 0 \<le> t"
    using lap_times_nonneg [of b "s * tf"] bs assms(2) by (auto simp: ts)
  have pos2: "\<forall>t \<in> set (butlast ts). 0 \<le> t" "0 \<le> last ts + pit"
    using pos ne assms(1) by (auto dest: in_set_butlastD simp: add_nonneg_nonneg)
  have IH: "\<forall>t \<in> set (charged_laps pit td wet tf False rest). 0 \<le> t"
    using Cons.IH [of False] Cons.prems by simp
  show ?case
    using pos pos2 IH
    by (cases first) (auto simp: stint Let_def ts_def [symmetric])
qed

lemma temp_factor_pos: "1 \<le> temp_factor_of w"
  by (simp add: temp_factor_of_def)

lemma simulate_closed:
  fixes pit :: real
  assumes reg: "map_of L track = Some T" and sum: "sum_list (map snd plan) = T"
    and td: "team_data_of tbl track team = Some td"
    and ok: "\<forall>stint \<in> set plan. 0 < snd stint \<and>
               (\<exists>b s. resolve_entry td (effective_comp (is_wet_of w) (fst stint)) = Inr (b, s))"
  defines "xs \<equiv> charged_laps pit td (is_wet_of w) (temp_factor_of w) True plan"
  shows "\<exists>a. snd (simulate_strategy L pit tbl track team w plan) = Inr a \<and>
           cum_times a = 0 # cum_from 0 xs \<and>
           length xs = nat T \<and>
           stint_times a = map (stint_time_of td (is_wet_of w) (temp_factor_of w)) plan \<and>
           sum_list xs = sum_list (stint_times a) + real (length plan - 1) * pit \<and>
           total_time a = (if is_wet_of w then sum_list xs * 1.1 else sum_list xs)"
proof -
  from run_stints_closed [OF ok, of pit "temp_factor_of w" init_state]
  obtain st' where run: "run_stints pit td (is_wet_of w) (temp_factor_of w) init_state plan = Inr st'"
    and f: "l_cum_times st' = 0 # cum_from 0 xs" "l_total_time st' = sum_list xs"
      "l_stint_times st' = map (stint_time_of td (is_wet_of w) (temp_factor_of w)) plan"
    by (auto simp: init_state_def xs_def)
  have p: "length xs = nat T"
    "sum_list xs = sum_list (map (stint_time_of td (is_wet_of w) (temp_factor_of w)) plan)
       + real (length plan - 1) * pit"
    using charged_laps_props [OF ok, of pit "temp_factor_of w" True] sum by (simp_all add: xs_def)
  show ?thesis
    using f p by (simp add: simulate_unfold [OF reg sum td] run finish_def)
qed

lemma nth_cons_cum_from:
  "k \<le> length ts \<Longrightarrow> (0 # cum_from 0 ts) ! k = sum_list (take k ts)"
  by (cases k) (simp_all add: nth_cum_from)

lemma charged_laps_append:
  "charged_laps pit td wet tf first (xs @ ys) =
     charged_laps pit td wet tf first xs @ charged_laps pit td wet tf (first \<and> xs = []) ys"
  by (induction xs arbitrary: first) (auto simp: Let_def)

lemma charged_laps_take:
  fixes pit tf :: real
  assumes ok: "\<forall>stint \<in> set plan. 0 < snd stint \<and>
             (\<exists>b s. resolve_entry td (effective_comp wet (fst stint)) = Inr (b, s))"
    and i: "i < length plan"
  shows "sum_list (take (nat (sum_list (map snd (take (Suc i) plan))))
                     (charged_laps pit td wet tf True plan))
           = sum_list (map (stint_time_of td wet tf) (take (Suc i) plan)) + real i * pit"
proof -
  define pre where "pre = take (Suc i) plan"
  define post where "post = drop (Suc i) plan"
  have plan: "plan = pre @ post" by (simp add: pre_def post_def)
  have okpre: "\<forall>stint \<in> set pre. 0 < snd stint \<and>
             (\<exists>b s. resolve_entry td (effective_comp wet (fst stint)) = Inr (b, s))"
    using ok by (auto simp: pre_def dest: in_set_takeD)
  have len: "length pre = Suc i" using i by (simp add: pre_def)
  have p: "length (charged_laps pit td wet tf True pre) = nat (sum_list (map snd pre))"
    "sum_list (charged_laps pit td wet tf True pre) =
       sum_list (map (stint_time_of td wet tf) pre) + real i * pit"
    using charged_laps_props [OF okpre, of pit tf True] len by simp_all
  have "take (nat (sum_list (map snd pre))) (charged_laps pit td wet tf True plan)
          = charged_laps pit td wet tf True pre"
    by (simp add: plan charged_laps_append p(1) del: charged_laps.simps)
  then show ?thesis
    using p(2) by (simp add: pre_def)
qed


text \<open>
  Where the loop charges the pit stops, for every valid plan with positive lap counts and
  resolvable compounds: entry \<open>k\<close> of the cumulative sequence is the sum of the first
  \<open>k\<close> lap times with the pit constant counted on the last lap of every stint but the
  first, so the entry of the last lap of stint \<open>i\<close> (counted from 0) carries \<open>i\<close>
  pit stops. The stop that precedes a stint is charged on the last lap of that stint, one
  stint after the boundary where it happens.
\<close>

lemma simulate_pit_charged_late_general:
  fixes pit :: real
  assumes reg: "map_of L track = Some T" and sum: "sum_list (map snd plan) = T"
    and td: "team_data_of tbl track team = Some td"
    and ok: "\<forall>stint \<in> set plan. 0 < snd stint \<and>
               (\<exists>b s. resolve_entry td (effective_comp (is_wet_of w) (fst stint)) = Inr (b, s))"
  shows "\<exists>a. snd (simulate_strategy L pit tbl track team w plan) = Inr a \<and>
           length (cum_times a) = nat T + 1 \<and>
           (\<forall>k \<le> nat T. cum_times a ! k =
              sum_list (take k (charged_laps pit td (is_wet_of w) (temp_factor_of w) True plan))) \<and>
           (\<forall>i < length plan.
              cum_times a ! nat (sum_list (map snd (take (Suc i) plan))) =
                sum_list (take (Suc i) (stint_times a)) + real i * pit) \<and>
           total_time a = (sum_list (stint_times a) + real (length plan - 1) * pit)
                            * (if is_wet_of w then 1.1 else 1)"
proof -
  define xs where "xs = charged_laps pit td (is_wet_of w) (temp_factor_of w) True plan"
  from simulate_closed [OF reg sum td ok, of pit]
  obtain a where a: "snd (simulate_strategy L pit tbl track team w plan) = Inr a"
    and c: "cum_times a = 0 # cum_from 0 xs" and l: "length xs = nat T"
    and st: "stint_times a = map (stint_time_of td (is_wet_of w) (temp_factor_of w)) plan"
    and s: "sum_list xs = sum_list (stint_times a) + real (length plan - 1) * pit"
    and t: "total_time a = (if is_wet_of w then sum_list xs * 1.1 else sum_list xs)"
    unfolding xs_def by blast
  have k: "\<forall>k \<le> nat T. cum_times a ! k = sum_list (take k xs)"
    using l by (simp add: c nth_cons_cum_from)
  have b: "cum_times a ! nat (sum_list (map snd (take (Suc i) plan))) =
                sum_list (take (Suc i) (stint_times a)) + real i * pit" if i: "i < length plan" for i
  proof -
    have "sum_list (map snd (take (Suc i) plan)) \<le> sum_list (map snd plan)"
    proof -
      have "sum_list (map snd plan) = sum_list (map snd (take (Suc i) plan)) + sum_list (map snd (drop (Suc i) plan))"
        by (metis append_take_drop_id map_append sum_list.append)
      moreover have "0 \<le> sum_list (map snd (drop (Suc i) plan))"
        using ok by (intro sum_list_nonneg) (auto dest!: in_set_dropD)
      ultimately show ?thesis by linarith
    qed
    then have "nat (sum_list (map snd (take (Suc i) plan))) \<le> nat T"
      using sum by simp
    then have "cum_times a ! nat (sum_list (map snd (take (Suc i) plan))) =
                 sum_list (take (nat (sum_list (map snd (take (Suc i) plan)))) xs)"
      using k by blast
    also have "\<dots> = sum_list (map (stint_time_of td (is_wet_of w) (temp_factor_of w)) (take (Suc i) plan))
                       + real i * pit"
      unfolding xs_def by (rule charged_laps_take [OF ok i])
    finally show ?thesis by (simp add: st take_map)
  qed
  have "length (cum_times a) = nat T + 1" by (simp add: c l)
  moreover have "total_time a = (sum_list (stint_times a) + real (length plan - 1) * pit)
                            * (if is_wet_of w then 1.1 else 1)"
    using t s by simp
  ultimately show ?thesis
    using a k b unfolding xs_def by blast
qed

text \<open>
  Claim C4 says the pit constant is folded into the cumulative entry of the last lap of
  the stint completed before the pit stop. Lines 138-141 run after the laps of the current
  stint were appended, so \<^verbatim>\<open>cum_times[-1]\<close> is the last lap of the stint that follows the
  stop. For SOFT (2 laps) then HARD (1 lap) at Monza for Mercedes, line 210 puts the pit
  stop at lap 2, yet the entry of lap 2 is the bare stint time 164.2 and the 22 seconds
  only show at lap 3, the last lap of the race.
\<close>

theorem simulate_pit_charged_late:
  "snd (simulate_strategy three_laps pit_time_avg monza_table ''Monza'' ''Mercedes'' dry_weather
          [(''SOFT'', 2), (''HARD'', 1)]) =
     Inr \<lparr>stint_times = [164.2, 84], deg_penalties = [0.2, 0], avg_lap_times = [82.1, 84],
          cum_times = [0, 82, 164.2, 164.2 + 84 + 22], total_time = 270.2\<rparr> \<and>
   map_sum id (\<lambda>a. cum_times a ! 2)
     (snd (simulate_strategy three_laps pit_time_avg monza_table ''Monza'' ''Mercedes'' dry_weather
          [(''SOFT'', 2), (''HARD'', 1)])) \<noteq> Inr (164.2 + pit_time_avg) \<and>
   pit_laps_of [(''SOFT'', 2), (''HARD'', 1)] = [2]"
  by (simp add: simulate_strategy_def three_laps_def monza_table_def dry_weather_def pit_time_avg_def
      resolve_track_data_def is_wet_of_def temp_factor_of_def init_state_def stint_step_def
      effective_comp_def resolve_entry_def lap_times_def add_pit_def finish_def Let_def
      pit_laps_of_def eval_nat_numeral)

text \<open>
  In exact arithmetic, for a valid plan with positive lap counts whose stints resolve to
  entries with non-negative base and slope and a non-negative pit constant, the cumulative
  sequence has \<open>total_laps + 1\<close> entries, starts at 0, is non-decreasing and ends at the
  running total before the wet factor. The last part is a fact of exact arithmetic only:
  the code adds the lap times one by one into \<^verbatim>\<open>current_cum\<close> (lines 128-131) and the
  stint sums into \<^verbatim>\<open>total_time\<close> (line 133), and on doubles the two orders of addition
  round differently, which this model, reading floats as reals, does not express.
\<close>

lemma simulate_cum_times_gen:
  fixes pit :: real
  assumes pit: "0 \<le> pit"
    and reg: "map_of L track = Some T" and sum: "sum_list (map snd plan) = T"
    and td: "team_data_of tbl track team = Some td"
    and ok: "\<forall>stint \<in> set plan. 0 < snd stint \<and>
               (\<exists>b s. resolve_entry td (effective_comp (is_wet_of w) (fst stint)) = Inr (b, s)
                  \<and> 0 \<le> b \<and> 0 \<le> s)"
  shows "\<exists>a. snd (simulate_strategy L pit tbl track team w plan) = Inr a \<and>
           length (cum_times a) = nat T + 1 \<and>
           cum_times a ! 0 = 0 \<and>
           sorted (cum_times a) \<and>
           last (cum_times a) = (if is_wet_of w then total_time a / 1.1 else total_time a)"
proof -
  define xs where "xs = charged_laps pit td (is_wet_of w) (temp_factor_of w) True plan"
  have ok': "\<forall>stint \<in> set plan. 0 < snd stint \<and>
               (\<exists>b s. resolve_entry td (effective_comp (is_wet_of w) (fst stint)) = Inr (b, s))"
    using ok by blast
  from simulate_closed [OF reg sum td ok', of pit]
  obtain a where a: "snd (simulate_strategy L pit tbl track team w plan) = Inr a"
    and c: "cum_times a = 0 # cum_from 0 xs" and l: "length xs = nat T"
    and t: "total_time a = (if is_wet_of w then sum_list xs * 1.1 else sum_list xs)"
    unfolding xs_def by blast
  have tf: "0 \<le> temp_factor_of w"
    using temp_factor_pos [of w] by linarith
  have nn: "\<forall>t \<in> set xs. 0 \<le> t"
    unfolding xs_def by (rule charged_laps_nonneg [OF pit tf ok])
  have "sorted (cum_times a)"
    using sorted_cum_from [OF nn, of 0] by (simp add: c)
  moreover have "last (cum_times a) = sum_list xs"
    using last_cons_cum_from [of 0 xs] by (simp add: c)
  moreover have "length (cum_times a) = nat T + 1" "cum_times a ! 0 = 0"
    by (simp_all add: c l)
  ultimately show ?thesis
    using a t by auto
qed


subsection \<open>INTERMEDIATE stints\<close>

lemma map_of_dict_set_other: "k' \<noteq> k \<Longrightarrow> map_of (dict_set d k v) k' = map_of d k'"
  by (simp add: map_of_dict_set)

lemma resolve_entry_intermediate:
  "resolve_entry td ''INTERMEDIATE'' =
     Inr (case map_of td ''HARD'' of Some h \<Rightarrow> (base h + 3, slope h * 1.5) | None \<Rightarrow> (95, 0.03))"
  by (simp add: resolve_entry_def split: option.splits)


text \<open>
  Claim C10. A stint whose plan compound is INTERMEDIATE is never looked up in the team's
  dictionary, not even in dry weather (rain probability at most 0.3): an INTERMEDIATE key
  stored there changes nothing, and the entry is the team's HARD entry with base + 3.0
  and slope * 1.5, or (95.0, 0.03) when the team has no HARD entry. A dry plan with such
  stints is accepted: it returns analytics whenever its other stints resolve and no lap
  count is zero, and the time of each INTERMEDIATE stint is the sum of the lap times of
  that derived entry.
\<close>

theorem intermediate_stints_dry:
  assumes reg: "map_of L track = Some T" and sum: "sum_list (map snd plan) = T"
    and td: "team_data_of tbl track team = Some td"
    and dry: "rain_prob w \<le> 0.3"
    and ok: "\<forall>stint \<in> set plan. snd stint \<noteq> 0 \<and>
               (fst stint \<noteq> ''INTERMEDIATE'' \<longrightarrow> map_of td (fst stint) \<noteq> None)"
  shows "resolve_entry (dict_set td ''INTERMEDIATE'' e) ''INTERMEDIATE'' =
           resolve_entry td ''INTERMEDIATE'' \<and>
         resolve_entry td ''INTERMEDIATE'' =
           Inr (case map_of td ''HARD'' of
                  Some h \<Rightarrow> (base h + 3, slope h * 1.5)
                | None \<Rightarrow> (95, 0.03)) \<and>
         (\<exists>a. snd (simulate_strategy L pit tbl track team w plan) = Inr a \<and>
              (\<forall>i < length plan. fst (plan ! i) = ''INTERMEDIATE'' \<longrightarrow>
                 stint_times a ! i =
                   (case map_of td ''HARD'' of
                      Some h \<Rightarrow> sum_list (lap_times (base h + 3) (slope h * 1.5 * temp_factor_of w)
                                           (snd (plan ! i)))
                    | None \<Rightarrow> sum_list (lap_times 95 (0.03 * temp_factor_of w) (snd (plan ! i))))))"
proof (intro conjI)
  show "resolve_entry (dict_set td ''INTERMEDIATE'' e) ''INTERMEDIATE'' =
           resolve_entry td ''INTERMEDIATE''"
    by (simp add: resolve_entry_def map_of_dict_set)
  show "resolve_entry td ''INTERMEDIATE'' =
           Inr (case map_of td ''HARD'' of
                  Some h \<Rightarrow> (base h + 3, slope h * 1.5)
                | None \<Rightarrow> (95, 0.03))"
    by (rule resolve_entry_intermediate)
  have wet: "\<not> is_wet_of w"
    using dry by (simp add: is_wet_of_def)
  have res: "snd stint \<noteq> 0 \<and> (\<exists>b s. resolve_entry td (effective_comp (is_wet_of w) (fst stint)) = Inr (b, s))"
    if "stint \<in> set plan" for stint
  proof (cases "fst stint = ''INTERMEDIATE''")
    case True
    obtain p where p: "resolve_entry td ''INTERMEDIATE'' = Inr p"
      using resolve_entry_intermediate [of td] by blast
    obtain b s where "p = (b, s)" by (cases p)
    with p have "resolve_entry td ''INTERMEDIATE'' = Inr (b, s)" by simp
    then have "\<exists>b s. resolve_entry td (effective_comp (is_wet_of w) (fst stint)) = Inr (b, s)"
      using True by (auto simp: effective_comp_def)
    then show ?thesis
      using ok that by blast
  next
    case False
    then show ?thesis
      using ok that wet by (auto simp: effective_comp_def resolve_entry_def split: option.splits)
  qed
  then have "\<exists>st'. run_stints pit td (is_wet_of w) (temp_factor_of w) init_state plan = Inr st'"
    by (simp add: run_stints_ok_iff)
  then obtain st' where run: "run_stints pit td (is_wet_of w) (temp_factor_of w) init_state plan = Inr st'"
    by blast
  have st: "l_stint_times st' = map (stint_time_of td (is_wet_of w) (temp_factor_of w)) plan"
    using run_stints_stint_times [OF run] by (simp add: init_state_def)
  have a: "snd (simulate_strategy L pit tbl track team w plan) = Inr (finish (is_wet_of w) st')"
    by (simp add: simulate_unfold [OF reg sum td] run)
  have "stint_times (finish (is_wet_of w) st') ! i =
                   (case map_of td ''HARD'' of
                      Some h \<Rightarrow> sum_list (lap_times (base h + 3) (slope h * 1.5 * temp_factor_of w)
                                           (snd (plan ! i)))
                    | None \<Rightarrow> sum_list (lap_times 95 (0.03 * temp_factor_of w) (snd (plan ! i))))"
    if i: "i < length plan" and c: "fst (plan ! i) = ''INTERMEDIATE''" for i
  proof -
    have e: "stint_times (finish (is_wet_of w) st') ! i =
        stint_time_of td (is_wet_of w) (temp_factor_of w) (plan ! i)"
      using i by (simp add: finish_def st)
    obtain n where pi: "plan ! i = (''INTERMEDIATE'', n)"
      using c by (cases "plan ! i") auto
    show ?thesis
      using wet e
      by (simp add: pi stint_time_of_def stint_laps_of_def effective_comp_def resolve_entry_def
          split: option.splits)
  qed
  then show "\<exists>a. snd (simulate_strategy L pit tbl track team w plan) = Inr a \<and>
              (\<forall>i < length plan. fst (plan ! i) = ''INTERMEDIATE'' \<longrightarrow>
                 stint_times a ! i =
                   (case map_of td ''HARD'' of
                      Some h \<Rightarrow> sum_list (lap_times (base h + 3) (slope h * 1.5 * temp_factor_of w)
                                           (snd (plan ! i)))
                    | None \<Rightarrow> sum_list (lap_times 95 (0.03 * temp_factor_of w) (snd (plan ! i)))))"
    using a by blast
qed

theorem intermediate_stints_dry_witness:
  "map_of three_laps ''Monza'' = Some 3 \<and>
   sum_list (map snd [(''INTERMEDIATE'', 3 :: int)]) = 3 \<and>
   team_data_of monza_table ''Monza'' ''Ferrari'' = Some [(''SOFT'', \<lparr>base = 80, slope = 0.1\<rparr>)] \<and>
   rain_prob dry_weather \<le> 0.3 \<and>
   (\<exists>a. snd (simulate_strategy three_laps pit_time_avg monza_table ''Monza'' ''Ferrari'' dry_weather
             [(''INTERMEDIATE'', 3)]) = Inr a \<and>
        stint_times a ! 0 = sum_list (lap_times 95 (0.03 * temp_factor_of dry_weather) 3))"
proof -
  have h1: "map_of three_laps ''Monza'' = Some 3"
    by (simp add: three_laps_def)
  have h2: "sum_list (map snd [(''INTERMEDIATE'', 3 :: int)]) = 3"
    by simp
  have h3: "team_data_of monza_table ''Monza'' ''Ferrari'' = Some [(''SOFT'', \<lparr>base = 80, slope = 0.1\<rparr>)]"
    by (simp add: team_data_of_def resolve_track_data_def monza_table_def)
  have h4: "rain_prob dry_weather \<le> 0.3"
    by (simp add: dry_weather_def)
  have h5: "\<forall>stint \<in> set [(''INTERMEDIATE'', 3 :: int)]. snd stint \<noteq> 0 \<and>
               (fst stint \<noteq> ''INTERMEDIATE'' \<longrightarrow>
                  map_of [(''SOFT'', \<lparr>base = 80, slope = 0.1\<rparr>)] (fst stint) \<noteq> None)"
    by simp
  from intermediate_stints_dry [OF h1 h2 h3 h4 h5, of "\<lparr>base = 0, slope = 0\<rparr>" pit_time_avg]
  obtain a where a: "snd (simulate_strategy three_laps pit_time_avg monza_table ''Monza'' ''Ferrari''
                            dry_weather [(''INTERMEDIATE'', 3)]) = Inr a"
    and b: "\<forall>i < length [(''INTERMEDIATE'', 3 :: int)].
              fst ([(''INTERMEDIATE'', 3 :: int)] ! i) = ''INTERMEDIATE'' \<longrightarrow>
                 stint_times a ! i =
                   (case map_of [(''SOFT'', \<lparr>base = 80, slope = 0.1\<rparr>)] ''HARD'' of
                      Some h \<Rightarrow> sum_list (lap_times (base h + 3) (slope h * 1.5 * temp_factor_of dry_weather)
                                           (snd ([(''INTERMEDIATE'', 3 :: int)] ! i)))
                    | None \<Rightarrow> sum_list (lap_times 95 (0.03 * temp_factor_of dry_weather)
                                           (snd ([(''INTERMEDIATE'', 3 :: int)] ! i))))"
    by blast
  have "stint_times a ! 0 = sum_list (lap_times 95 (0.03 * temp_factor_of dry_weather) 3)"
    using b by simp
  then show ?thesis
    using h1 h2 h3 h4 a by blast
qed

subsection \<open>Wet races\<close>

lemma effective_comp_wet [simp]: "effective_comp True c = ''INTERMEDIATE''"
  by (simp add: effective_comp_def)

lemma effective_comp_dry [simp]: "effective_comp False c = c"
  by (simp add: effective_comp_def)

lemma stint_step_wet_as_intermediate:
  assumes "(p' = None) = (l_prev_comp st = None)"
  shows "stint_step pit td False tf (st\<lparr>l_prev_comp := p'\<rparr>) (''INTERMEDIATE'', n) =
           map_sum id (\<lambda>s. s\<lparr>l_prev_comp := Some ''INTERMEDIATE''\<rparr>)
             (stint_step pit td True tf st (c, n))"
  using assms
  by (auto simp: stint_step_def Let_def add_laps_closed add_pit_def
      split: sum.splits prod.splits)

lemma finish_prev_comp [simp]: "finish wet (st\<lparr>l_prev_comp := p\<rparr>) = finish wet st"
  by (simp add: finish_def)

lemma run_stints_wet_as_intermediate:
  assumes "(p' = None) = (l_prev_comp st = None)"
  shows "map_sum id (finish x) (run_stints pit td False tf (st\<lparr>l_prev_comp := p'\<rparr>)
                                  (map (\<lambda>stint. (''INTERMEDIATE'', snd stint)) plan)) =
         map_sum id (finish x) (run_stints pit td True tf st plan)"
  using assms
proof (induction plan arbitrary: st p')
  case Nil
  then show ?case by simp
next
  case (Cons stint rest)
  obtain c n where stint: "stint = (c, n)" by (cases stint)
  have step: "stint_step pit td False tf (st\<lparr>l_prev_comp := p'\<rparr>) (''INTERMEDIATE'', n) =
           map_sum id (\<lambda>s. s\<lparr>l_prev_comp := Some ''INTERMEDIATE''\<rparr>)
             (stint_step pit td True tf st (c, n))"
    by (rule stint_step_wet_as_intermediate [OF Cons.prems])
  show ?case
  proof (cases "stint_step pit td True tf st (c, n)")
    case (Inl e)
    then show ?thesis by (simp add: stint step)
  next
    case (Inr st1)
    have "l_prev_comp st1 \<noteq> None"
      using Inr by (auto simp: stint_step_def Let_def split: sum.splits prod.splits if_splits)
    then have "(Some ''INTERMEDIATE'' = None) = (l_prev_comp st1 = None)" by simp
    from Cons.IH [OF this] show ?thesis
      by (simp add: stint step Inr)
  qed
qed

lemma finish_wet: "finish True st = (finish False st)\<lparr>total_time := total_time (finish False st) * 1.1\<rparr>"
  by (simp add: finish_def)


text \<open>
  Claim C6, as amended. With rain probability 0.5 the race is wet and every stint's
  effective compound is INTERMEDIATE (resolved from the HARD entry as in
  \<open>resolve_entry_intermediate\<close>). The call then behaves as the dry simulation (rain
  probability 0) of the plan with every compound replaced by INTERMEDIATE, except that
  \<open>total_time\<close> is multiplied by 1.1: same table afterwards, same exception if any, same
  stint, penalty, average and cumulative sequences. The factor relates the wet total to
  the dry total of the INTERMEDIATE plan, not to the dry total of the plan as written.
\<close>

theorem simulate_wet_vs_dry:
  assumes "rain_prob w = 0.5"
  shows "is_wet_of w \<and> effective_comp (is_wet_of w) c = ''INTERMEDIATE'' \<and>
         simulate_strategy L pit tbl track team w plan =
           map_prod id (map_sum id (\<lambda>a. a\<lparr>total_time := total_time a * 1.1\<rparr>))
             (simulate_strategy L pit tbl track team (w\<lparr>rain_prob := 0\<rparr>)
                (map (\<lambda>stint. (''INTERMEDIATE'', snd stint)) plan))"
proof -
  have wet: "is_wet_of w" using assms by (simp add: is_wet_of_def)
  have dry: "\<not> is_wet_of (w\<lparr>rain_prob := 0\<rparr>)" by (simp add: is_wet_of_def)
  have tf: "temp_factor_of (w\<lparr>rain_prob := 0\<rparr>) = temp_factor_of w"
    by (simp add: temp_factor_of_def)
  have sm: "snd \<circ> (\<lambda>stint::string \<times> int. (''INTERMEDIATE'', snd stint)) = snd"
    by (simp add: fun_eq_iff)
  have run: "map_sum id (finish False) (run_stints pit td False (temp_factor_of w) init_state
                                  (map (\<lambda>stint. (''INTERMEDIATE'', snd stint)) plan)) =
         map_sum id (finish False) (run_stints pit td True (temp_factor_of w) init_state plan)" for td
    using run_stints_wet_as_intermediate [of None init_state False pit td "temp_factor_of w" plan]
    by (simp add: init_state_def)
  have r: "(case run_stints pit td True (temp_factor_of w) init_state plan of
              Inl e \<Rightarrow> Inl e | Inr st \<Rightarrow> Inr (finish True st)) =
           map_sum id (\<lambda>a. a\<lparr>total_time := total_time a * 1.1\<rparr>)
             (case run_stints pit td False (temp_factor_of w) init_state
                     (map (\<lambda>stint. (''INTERMEDIATE'', snd stint)) plan) of
                Inl e \<Rightarrow> Inl e | Inr st \<Rightarrow> Inr (finish False st))" for td
    using run [of td]
    by (auto simp: finish_wet split: sum.splits)
  have "simulate_strategy L pit tbl track team w plan =
           map_prod id (map_sum id (\<lambda>a. a\<lparr>total_time := total_time a * 1.1\<rparr>))
             (simulate_strategy L pit tbl track team (w\<lparr>rain_prob := 0\<rparr>)
                (map (\<lambda>stint. (''INTERMEDIATE'', snd stint)) plan))"
    using wet dry r
    by (simp add: simulate_strategy_def Let_def tf sm case_prod_beta split: option.splits)
  then show ?thesis
    using wet by simp
qed

theorem simulate_wet_vs_dry_witness:
  "rain_prob \<lparr>track_temp = 30, rain_prob = 0.5\<rparr> = 0.5 \<and>
   simulate_strategy three_laps pit_time_avg monza_table ''Monza'' ''Mercedes''
       \<lparr>track_temp = 30, rain_prob = 0.5\<rparr> [(''SOFT'', 3)] =
     map_prod id (map_sum id (\<lambda>a. a\<lparr>total_time := total_time a * 1.1\<rparr>))
       (simulate_strategy three_laps pit_time_avg monza_table ''Monza'' ''Mercedes''
          (\<lparr>track_temp = 30, rain_prob = 0.5\<rparr>\<lparr>rain_prob := 0\<rparr>)
          (map (\<lambda>stint. (''INTERMEDIATE'', snd stint)) [(''SOFT'', 3)]))"
proof -
  have h: "rain_prob \<lparr>track_temp = 30, rain_prob = 0.5\<rparr> = 0.5"
    by simp
  show ?thesis
    using h simulate_wet_vs_dry [OF h, of "''SOFT''" three_laps pit_time_avg monza_table
        "''Monza''" "''Mercedes''" "[(''SOFT'', 3)]"]
    by blast
qed

text \<open>The claim as stated fails: three laps on SOFT for Mercedes at Monza take 246.6 dry
  and 287.3475 wet, which is 1.1 times the 261.225 of the INTERMEDIATE entry and not
  1.1 times 246.6.\<close>

theorem simulate_wet_vs_dry_counterexample:
  "map_sum id total_time
     (snd (simulate_strategy three_laps pit_time_avg monza_table ''Monza'' ''Mercedes''
             \<lparr>track_temp = 30, rain_prob = 0.5\<rparr> [(''SOFT'', 3)])) = Inr 287.3475 \<and>
   map_sum id total_time
     (snd (simulate_strategy three_laps pit_time_avg monza_table ''Monza'' ''Mercedes''
             \<lparr>track_temp = 30, rain_prob = 0\<rparr> [(''SOFT'', 3)])) = Inr 246.6 \<and>
   (287.3475 :: real) \<noteq> 1.1 * 246.6"
  by (simp add: simulate_strategy_def three_laps_def monza_table_def pit_time_avg_def
      resolve_track_data_def is_wet_of_def temp_factor_of_def init_state_def stint_step_def
      effective_comp_def resolve_entry_def lap_times_def add_pit_def finish_def Let_def
      eval_nat_numeral)

section \<open>Properties of \<^verbatim>\<open>optimize_strategy\<close>\<close>

subsection \<open>The candidate menu\<close>

text \<open>The bounds below hold for whatever integer \<^verbatim>\<open>int(f * total_laps)\<close> yields: only the
  clamping \<^verbatim>\<open>max(10, min(_, hi))\<close> is used.\<close>

lemma split_laps_lower: "10 \<le> split_laps f T hi"
  by (simp add: split_laps_def)

lemma split_laps_upper: "10 \<le> hi \<Longrightarrow> split_laps f T hi \<le> hi"
  by (simp add: split_laps_def)

lemma candidates_sum: "c \<in> set (candidates T) \<Longrightarrow> sum_list (map snd c) = T"
  by (auto simp: candidates_def Let_def)

lemma split_one_stop:
  assumes "30 \<le> T"
  shows "10 \<le> split_laps f T (T - 10) \<and> 10 \<le> T - split_laps f T (T - 10)"
  using assms split_laps_lower [of f T "T - 10"] split_laps_upper [of "T - 10" f T] by linarith

lemma split_two_stop:
  fixes f g :: real and T :: int
  assumes "30 \<le> T"
  defines "a \<equiv> split_laps f T (T - 20)"
  defines "b \<equiv> split_laps g T (T - a - 10)"
  shows "10 \<le> a \<and> 10 \<le> b \<and> 10 \<le> T - a - b"
proof -
  have a: "10 \<le> a" "a \<le> T - 20"
    using assms(1) by (simp_all add: a_def split_laps_lower split_laps_upper)
  have b: "10 \<le> b" "b \<le> T - a - 10"
    using a by (simp_all add: b_def split_laps_lower split_laps_upper)
  show ?thesis using a b by linarith
qed

lemma candidates_min_laps:
  assumes T: "30 \<le> T" and c: "c \<in> set (candidates T)" and s: "stint \<in> set c"
  shows "10 \<le> snd stint"
  using c s split_one_stop [OF T, of "0.3"] split_one_stop [OF T, of "0.5"]
    split_two_stop [OF T, of "0.25" "0.35"] split_two_stop [OF T, of "0.3" "0.4"]
    split_two_stop [OF T, of "0.3" "0.3"] split_two_stop [OF T, of "0.2" "0.3"]
  by (auto simp: candidates_def Let_def)

lemma registry_laps: "(t, T) \<in> set TRACK_LAPS \<Longrightarrow> 30 \<le> T"
  by (auto simp: TRACK_LAPS_def)

text \<open>
  Claim C8. For every total lap count of the registry (\<^verbatim>\<open>TRACK_LAPS\<close>, all at least 44),
  every candidate plan of the menu has lap counts that sum to the total, and every stint
  of every candidate has at least 10 laps.
\<close>

theorem candidates_valid:
  assumes "(track, T) \<in> set TRACK_LAPS" "c \<in> set (candidates T)"
  shows "sum_list (map snd c) = T \<and> (\<forall>stint \<in> set c. 10 \<le> snd stint)"
  using candidates_sum [OF assms(2)] candidates_min_laps [OF registry_laps [OF assms(1)] assms(2)]
  by blast

theorem candidates_valid_witness:
  "(''Monza'', 53) \<in> set TRACK_LAPS \<and>
   [(''SOFT'', 13), (''MEDIUM'', 18), (''HARD'', 22)] \<in> set (candidates 53) \<and>
   sum_list (map snd [(''SOFT'', 13 :: int), (''MEDIUM'', 18), (''HARD'', 22)]) = 53 \<and>
   list_all (\<lambda>stint. 10 \<le> snd stint) [(''SOFT'', 13 :: int), (''MEDIUM'', 18), (''HARD'', 22)]"
proof -
  have a: "(''Monza'', 53) \<in> set TRACK_LAPS"
    by (simp add: TRACK_LAPS_def)
  have b: "[(''SOFT'', 13), (''MEDIUM'', 18), (''HARD'', 22)] \<in> set (candidates 53)"
    by (simp add: candidates_def split_laps_def py_int_def Let_def)
  show ?thesis
    using a b candidates_valid [OF a b] by (simp add: list_all_iff)
qed

subsection \<open>The fallback plan\<close>

lemma simulate_not_ok:
  assumes reg: "map_of L track = Some T"
    and bad: "\<exists>stint \<in> set plan. \<forall>b s.
                lookup tbl track team (effective_comp (is_wet_of w) (fst stint)) \<noteq> Inr (b, s)"
  shows "\<exists>e. snd (simulate_strategy L pit tbl track team w plan) = Inl e"
proof (cases "sum_list (map snd plan) = T")
  case True
  have "\<not> (\<exists>a. snd (simulate_strategy L pit tbl track team w plan) = Inr a)"
    using bad by (simp add: simulate_ok_iff [OF reg True]) blast
  then show ?thesis
    by (cases "snd (simulate_strategy L pit tbl track team w plan)") auto
next
  case False
  then show ?thesis
    using reg by (simp add: simulate_strategy_def)
qed

lemma try_candidates_all_fail:
  assumes frame: "map_of tbl track = None \<or>
                    (\<exists>td cd. map_of tbl track = Some td \<and> map_of td team = Some cd)"
    and fail: "\<forall>c \<in> set cands. \<exists>e. snd (simulate_strategy L pit tbl track team w c) = Inl e"
  shows "try_candidates L pit track team w (tbl, best) cands = (tbl, best)"
  using fail
proof (induction cands)
  case Nil
  then show ?case by simp
next
  case (Cons c cands)
  obtain e where e: "snd (simulate_strategy L pit tbl track team w c) = Inl e"
    using Cons.prems by auto
  have "fst (simulate_strategy L pit tbl track team w c) = tbl"
    by (rule simulate_table_frame [OF frame])
  with e have "simulate_strategy L pit tbl track team w c = (tbl, Inl e)"
    by (metis prod.collapse)
  then show ?case
    using Cons by simp
qed

lemma candidates_have_hard:
  "c \<in> set (candidates T) \<Longrightarrow> \<exists>stint \<in> set c. fst stint = ''HARD''"
  by (auto simp: candidates_def Let_def)

lemma optimize_raises_without_hard_medium:
  assumes reg: "map_of L track = Some T"
    and tr: "map_of tbl track = Some td" and tm: "map_of td team = Some cd"
    and hard: "map_of cd ''HARD'' = None" and medium: "map_of cd ''MEDIUM'' = None"
    and dry: "\<not> is_wet_of w"
  shows "optimize_strategy gw L pit tbl track team (Some w) = (tbl, Inl KeyError)"
proof -
  have frame: "map_of tbl track = None \<or>
                    (\<exists>td cd. map_of tbl track = Some td \<and> map_of td team = Some cd)"
    using tr tm by blast
  have lh: "lookup tbl track team ''HARD'' = Inl KeyError"
    using lookup_present [OF tr tm, of "''HARD''"] hard by simp
  have "\<exists>e. snd (simulate_strategy L pit tbl track team w c) = Inl e"
    if mem: "c \<in> set (candidates T)" for c
  proof (rule simulate_not_ok [OF reg])
    obtain stint where s: "stint \<in> set c" "fst stint = ''HARD''"
      using candidates_have_hard [OF mem] by blast
    have "\<forall>b s. lookup tbl track team (effective_comp (is_wet_of w) (fst stint)) \<noteq> Inr (b, s)"
      using dry lh s(2) by (simp add: effective_comp_def)
    then show "\<exists>stint \<in> set c. \<forall>b s.
                lookup tbl track team (effective_comp (is_wet_of w) (fst stint)) \<noteq> Inr (b, s)"
      using s(1) by blast
  qed
  then have tc: "try_candidates L pit track team w (tbl, None) (candidates T) = (tbl, None)"
    using try_candidates_all_fail [OF frame] by blast
  have td': "team_data_of tbl track team = Some cd"
    by (rule team_data_of_present [OF tr tm])
  have "resolve_entry cd (effective_comp (is_wet_of w) ''MEDIUM'') = Inl KeyError"
    using dry medium by (simp add: effective_comp_def resolve_entry_def)
  then have "snd (simulate_strategy L pit tbl track team w [(''MEDIUM'', T)]) = Inl KeyError"
    by (simp add: simulate_unfold [OF reg _ td'] stint_step_def Let_def)
  moreover have "fst (simulate_strategy L pit tbl track team w [(''MEDIUM'', T)]) = tbl"
    by (rule simulate_table_frame [OF frame])
  ultimately have fb: "simulate_strategy L pit tbl track team w [(''MEDIUM'', T)] = (tbl, Inl KeyError)"
    by (metis prod.collapse)
  show ?thesis
    by (simp add: optimize_strategy_def reg tc fb Let_def)
qed


text \<open>
  Claim C5 says \<^verbatim>\<open>optimize_strategy\<close> returns for every registry track, team and weather
  however sparse the table is. Every candidate of the menu ends on HARD, so a stored team
  without HARD fails all six in dry weather; the fallback simulation of line 206 is outside
  the \<^verbatim>\<open>try\<close>, and when the team has no MEDIUM either its \<^verbatim>\<open>KeyError\<close> leaves the
  optimizer. Ferrari at Monza, stored with SOFT only, is such an input.
\<close>

theorem optimize_raises:
  "optimize_strategy gw TRACK_LAPS pit_time_avg monza_table ''Monza'' ''Ferrari'' (Some dry_weather)
     = (monza_table, Inl KeyError)"
proof (rule optimize_raises_without_hard_medium)
  show "map_of TRACK_LAPS ''Monza'' = Some 53"
    by (simp add: TRACK_LAPS_def)
  show "map_of monza_table ''Monza'' =
          Some [(''Ferrari'', [(''SOFT'', \<lparr>base = 80, slope = 0.1\<rparr>)]),
                (''Mercedes'', [(''SOFT'', \<lparr>base = 82, slope = 0.2\<rparr>),
                                (''HARD'', \<lparr>base = 84, slope = 0.05\<rparr>)])]"
    by (simp add: monza_table_def)
  show "map_of [(''Ferrari'', [(''SOFT'', \<lparr>base = 80, slope = 0.1\<rparr>)]),
                (''Mercedes'', [(''SOFT'', \<lparr>base = 82, slope = 0.2\<rparr>),
                                (''HARD'', \<lparr>base = 84, slope = 0.05\<rparr>)])] ''Ferrari''
          = Some [(''SOFT'', \<lparr>base = 80, slope = 0.1\<rparr>)]"
    by simp
  show "map_of [(''SOFT'', \<lparr>base = 80, slope = 0.1\<rparr>)] ''HARD'' = None" by simp
  show "map_of [(''SOFT'', \<lparr>base = 80, slope = 0.1\<rparr>)] ''MEDIUM'' = None" by simp
  show "\<not> is_wet_of dry_weather" by (simp add: is_wet_of_def dry_weather_def)
qed

end
